theory Spec2Isabelle
  imports Main "HOL-Library.Word"
begin

section \<open>Errors and asynchronous calls\<close>

text \<open>
  What a wrapped function of the service (\<^verbatim>\<open>src/src/nest-square.service.ts\<close>) can throw,
  and what the retry helper can throw in turn. JavaScript lets a function throw any value:
  \<^item> the vendor SDK's \<^verbatim>\<open>ApiError\<close>, which carries the HTTP \<^verbatim>\<open>statusCode\<close> of the failed
    request;
  \<^item> a \<^verbatim>\<open>TypeError\<close>, with its message;
  \<^item> the retry library's \<^verbatim>\<open>AbortError\<close>, which carries an \<^verbatim>\<open>originalError\<close>;
  \<^item> the host framework's \<^verbatim>\<open>InternalServerErrorException\<close>, built by
    \<^verbatim>\<open>new InternalServerErrorException(error)\<close> around the error it reports;
  \<^item> any other \<^verbatim>\<open>Error\<close> (a network failure, a programming error in the caller's
    function), with its message;
  \<^item> a value that is not an \<^verbatim>\<open>Error\<close> at all (\<^verbatim>\<open>throw "timeout"\<close>), given by the string
    that a template literal renders it to.
\<close>

datatype error =
    ApiError int
  | Error string
  | InternalServerErrorException error
  | TypeError string
  | AbortError error
  | NonError string

text \<open>
  A function returning a \<^verbatim>\<open>Promise<T>\<close> is run against a state \<open>'s\<close> (whatever the call
  can read and change) and settles: \<open>Inr v\<close> when the promise resolves with \<open>v\<close>,
  \<open>Inl e\<close> when it rejects with \<open>e\<close>. The state after the call is returned with the outcome.
\<close>

type_synonym ('s, 'a) promise = "'s \<Rightarrow> (error + 'a) \<times> 's"

section \<open>The retry helper\<close>

text \<open>\<^verbatim>\<open>HttpStatus.INTERNAL_SERVER_ERROR\<close> and \<^verbatim>\<open>HttpStatus.TOO_MANY_REQUESTS\<close> of the host framework.\<close>

definition INTERNAL_SERVER_ERROR :: int where
  "INTERNAL_SERVER_ERROR = 500"

definition TOO_MANY_REQUESTS :: int where
  "TOO_MANY_REQUESTS = 429"

text \<open>
  The callback that \<^verbatim>\<open>pRetryOrThrow\<close> hands to the retry library (service, lines 115 to 128).
  The library passes the error of the failed attempt, decorated with \<^verbatim>\<open>retriesLeft\<close>; here
  \<^verbatim>\<open>retriesLeft\<close> is the second argument. The callback either throws (\<open>Some\<close> of what it
  throws) or returns normally (\<open>None\<close>). Its call of the logger is not modelled.
\<close>

definition onFailedAttempt :: "error \<Rightarrow> nat \<Rightarrow> error option" where
  "onFailedAttempt error retriesLeft =
     (case error of
        ApiError statusCode \<Rightarrow>
          (let isRetryable =
                 (statusCode \<ge> INTERNAL_SERVER_ERROR \<or> statusCode = TOO_MANY_REQUESTS)
           in if \<not> isRetryable \<or> retriesLeft = 0
              then Some (InternalServerErrorException error)
              else None)
      | _ \<Rightarrow> Some error)"

text \<open>
  \<^verbatim>\<open>pRetry\<close> is the npm package \<^verbatim>\<open>p-retry\<close>, a dependency and not a file of this
  repository. It is modelled by what the library does with a failed attempt. Before it
  calls \<^verbatim>\<open>onFailedAttempt\<close>, the library ends the run at once in three cases:
  \<^item> the thrown value is not an \<^verbatim>\<open>Error\<close>: it rejects with a new \<^verbatim>\<open>TypeError\<close> whose
    message names the value;
  \<^item> the error is the library's \<^verbatim>\<open>AbortError\<close>: it rejects with its \<^verbatim>\<open>originalError\<close>;
  \<^item> the error is a \<^verbatim>\<open>TypeError\<close> whose message is not one of the messages that the
    library takes for a network failure: it rejects with that error.

  The messages of \<open>isNetworkError\<close> are those of version 5 of the library; the list
  differs between versions, and nothing below depends on it, since the callback of the
  service throws a \<^verbatim>\<open>TypeError\<close> as it is (lemma \<open>rethrown_TypeError\<close>).
\<close>

definition isNetworkError :: "string \<Rightarrow> bool" where
  "isNetworkError message \<longleftrightarrow>
     message \<in> set [''Failed to fetch'',
                    ''NetworkError when attempting to fetch resource.'',
                    ''The Internet connection appears to be offline.'',
                    ''Network request failed'',
                    ''fetch failed'']"

definition non_error_message :: "string \<Rightarrow> string" where
  "non_error_message v =
     ''Non-error was thrown: '' @ [CHR 0x22] @ v @ [CHR 0x22] @ ''. You should only throw errors.''"

fun rejects_at_once :: "error \<Rightarrow> error option" where
  "rejects_at_once (NonError v) = Some (TypeError (non_error_message v))"
| "rejects_at_once (AbortError originalError) = Some originalError"
| "rejects_at_once (TypeError message) =
     (if isNetworkError message then None else Some (TypeError message))"
| "rejects_at_once _ = None"

text \<open>
  Otherwise the library calls \<^verbatim>\<open>onFailedAttempt\<close> with the error and the number of retries
  left; when the callback throws, it rejects with what the callback threw and stops; when
  the callback returns, it runs \<^verbatim>\<open>input\<close> again while retries are left, and rejects once
  none is left. When \<^verbatim>\<open>input\<close> resolves, the run resolves with its value. The third
  argument is the number of retries left at the attempt: \<^verbatim>\<open>retries\<close> at the first attempt,
  one less at each further attempt.

  Outside the model: the delay between two attempts. In the last case of the first equation
  (no retry left and a callback that returns) the library rejects with an error it picks
  among those of the run; the case does not arise with the callback above, which throws
  whenever no retry is left (lemma \<open>onFailedAttempt_None\<close>).
\<close>

fun pRetry :: "('s, 'a) promise \<Rightarrow> (error \<Rightarrow> nat \<Rightarrow> error option) \<Rightarrow> nat \<Rightarrow> ('s, 'a) promise" where
  "pRetry input onFailed 0 s =
     (case input s of
        (Inr v, s') \<Rightarrow> (Inr v, s')
      | (Inl e, s') \<Rightarrow>
          (case rejects_at_once e of
             Some rejected \<Rightarrow> (Inl rejected, s')
           | None \<Rightarrow>
               (case onFailed e 0 of
                  Some thrown \<Rightarrow> (Inl thrown, s')
                | None \<Rightarrow> (Inl e, s'))))"
| "pRetry input onFailed (Suc retriesLeft) s =
     (case input s of
        (Inr v, s') \<Rightarrow> (Inr v, s')
      | (Inl e, s') \<Rightarrow>
          (case rejects_at_once e of
             Some rejected \<Rightarrow> (Inl rejected, s')
           | None \<Rightarrow>
               (case onFailed e (Suc retriesLeft) of
                  Some thrown \<Rightarrow> (Inl thrown, s')
                | None \<Rightarrow> pRetry input onFailed retriesLeft s')))"

text \<open>
  The service passes no \<^verbatim>\<open>retries\<close> option, so the library's default applies: 10 retries,
  that is at most 11 attempts.
\<close>

definition retries :: nat where
  "retries = 10"

definition pRetryOrThrow :: "('s, 'a) promise \<Rightarrow> ('s, 'a) promise" where
  "pRetryOrThrow fn = pRetry fn onFailedAttempt retries"

text \<open>
  To speak about the attempts of one run, the wrapped function is observed: \<open>traced fn\<close>
  behaves as \<open>fn\<close> and appends the outcome of each call to a list kept beside the state.
  The retry helper itself is the one above.
\<close>

definition traced :: "('s, 'a) promise \<Rightarrow> ('s \<times> (error + 'a) list, 'a) promise" where
  "traced fn = (\<lambda>(s, tr). case fn s of (r, s') \<Rightarrow> (r, (s', tr @ [r])))"

text \<open>
  Predicates on errors for the statements below: \<open>retryable\<close> is the callback's
  \<^verbatim>\<open>isRetryable\<close>, false for an error that is not an \<^verbatim>\<open>ApiError\<close>; \<open>is_ApiError\<close> is
  \<^verbatim>\<open>error instanceof ApiError\<close>; \<open>rethrown e\<close> is what a run throws when it ends at a
  failure with \<open>e\<close>: what the library rejects with at once, or else what the callback
  throws.
\<close>

fun retryable :: "error \<Rightarrow> bool" where
  "retryable (ApiError statusCode) =
     (statusCode \<ge> INTERNAL_SERVER_ERROR \<or> statusCode = TOO_MANY_REQUESTS)"
| "retryable _ = False"

fun is_ApiError :: "error \<Rightarrow> bool" where
  "is_ApiError (ApiError statusCode) = True"
| "is_ApiError _ = False"

definition rethrown :: "error \<Rightarrow> error" where
  "rethrown e =
     (case rejects_at_once e of
        Some rejected \<Rightarrow> rejected
      | None \<Rightarrow> if is_ApiError e then InternalServerErrorException e else e)"

section \<open>Configuration\<close>

text \<open>\<^verbatim>\<open>NestSquareConfigType\<close> of \<^verbatim>\<open>src/src/nest-square.config.ts\<close>.\<close>

record NestSquareConfigType =
  clientEnvironment :: string
  oauthClientId :: string
  oauthClientSecret :: string

section \<open>The vendor SDK as the service uses it\<close>

text \<open>
  The SDK's types, with the fields the service sets or reads. A field the service leaves
  out of an object literal is \<^verbatim>\<open>undefined\<close>, here \<open>None\<close>. The fields \<^verbatim>\<open>type\<close> and
  \<^verbatim>\<open>id\<close> of the image object are \<open>imageType\<close> and \<open>imageId\<close>, and the field
  \<^verbatim>\<open>image\<close> of the request is \<open>imageObject\<close>.
\<close>

record Client =
  accessToken :: "string option"
  environment :: string

record ObtainTokenRequest =
  clientId :: string
  clientSecret :: string
  grantType :: string
  code :: "string option"
  refreshToken :: "string option"

record CatalogImage =
  caption :: "string option"

record CatalogObject =
  imageType :: string
  imageId :: string
  imageData :: CatalogImage

record CreateCatalogImageRequest =
  idempotencyKey :: string
  objectId :: "string option"
  imageObject :: CatalogObject

type_synonym Buffer = "8 word list"

text \<open>
  A readable stream is identified by the bytes pushed into it before its end was pushed.
  A request records the stream it was handed, not what the SDK then reads from it: the
  wrapper built by \<^verbatim>\<open>uploadCatalogImageOrThrow\<close> is one object, handed to every attempt.
\<close>

type_synonym Readable = "8 word list"

record FileWrapper =
  fileStream :: Readable
  contentType :: string

text \<open>\<^verbatim>\<open>NestSquareFile\<close> is declared outside the files at hand; the service reads these two fields.\<close>

record NestSquareFile =
  buffer :: Buffer
  mimetype :: string

text \<open>
  The envelope \<^verbatim>\<open>ApiResponse<T>\<close> of every SDK call, and the body of a
  \<^verbatim>\<open>listCatalog\<close> response. The vendor's own objects (a catalog object, a token response,
  an image response) are type parameters.
\<close>

record 'r ApiResponse =
  statusCode :: int
  body :: string
  result :: 'r

record 'o ListCatalogResponse =
  cursor :: "string option"
  objects :: "'o list option"

text \<open>
  The vendor's servers are outside the program. What the program does to them is the list
  of requests it has sent, in order; what they answer is left open: \<open>reply\<close> is any
  function from the requests received so far (the current one last) to the outcome of the
  current one. A server that fails twice and then answers is such a function, as is one
  that serves a fixed sequence of pages.
\<close>

datatype request =
    ObtainToken Client ObtainTokenRequest
  | ListCatalog Client "string option" string
  | CreateCatalogImage Client CreateCatalogImageRequest FileWrapper

definition send :: "(request list \<Rightarrow> error + 'r) \<Rightarrow> request \<Rightarrow> (request list, 'r) promise" where
  "send reply rq sent = (reply (sent @ [rq]), sent @ [rq])"

text \<open>
  The state of a run: the \<^verbatim>\<open>config\<close> field of the service object, and the requests sent
  to the vendor so far. Code that only talks to the vendor is lifted by \<open>in_world\<close>.
\<close>

record state =
  config :: NestSquareConfigType
  requests :: "request list"

definition in_world :: "(request list, 'a) promise \<Rightarrow> (state, 'a) promise" where
  "in_world call s = (case call (requests s) of (r, sent) \<Rightarrow> (r, s\<lparr>requests := sent\<rparr>))"

definition obtainToken ::
  "(request list \<Rightarrow> error + 't ApiResponse) \<Rightarrow> Client \<Rightarrow> ObtainTokenRequest \<Rightarrow> (state, 't ApiResponse) promise" where
  "obtainToken reply c rq = in_world (send reply (ObtainToken c rq))"

definition listCatalog ::
  "(request list \<Rightarrow> error + 'o ListCatalogResponse ApiResponse) \<Rightarrow> Client \<Rightarrow> string option \<Rightarrow> string
     \<Rightarrow> (state, 'o ListCatalogResponse ApiResponse) promise" where
  "listCatalog reply c cur tys = in_world (send reply (ListCatalog c cur tys))"

definition createCatalogImage ::
  "(request list \<Rightarrow> error + 'i ApiResponse) \<Rightarrow> Client \<Rightarrow> CreateCatalogImageRequest \<Rightarrow> FileWrapper
     \<Rightarrow> (state, 'i ApiResponse) promise" where
  "createCatalogImage reply c rq fw = in_world (send reply (CreateCatalogImage c rq fw))"

section \<open>The service\<close>

text \<open>
  The methods of \<^verbatim>\<open>NestSquareService\<close>. Each takes the state and returns it with its
  result; \<open>reply\<close> is the behaviour of the vendor's servers during the call. Parameters
  whose source names are field names above are renamed (\<open>token\<close> for \<^verbatim>\<open>accessToken\<close>,
  \<open>authCode\<close> for \<^verbatim>\<open>code\<close>, \<open>refresh\<close> for \<^verbatim>\<open>refreshToken\<close>). The verbose logging of
  each method is not modelled. The caller's function of \<^verbatim>\<open>retryOrThrow\<close> is given the client
  and talks to the vendor; the private \<^verbatim>\<open>config\<close> field is not in its reach.
\<close>

definition client :: "string option \<Rightarrow> state \<Rightarrow> Client \<times> state" where
  "client token s =
     (\<lparr>accessToken = token, environment = clientEnvironment (config s)\<rparr>, s)"

definition retryOrThrow :: "string \<Rightarrow> (Client \<Rightarrow> (request list, 'a) promise) \<Rightarrow> (state, 'a) promise" where
  "retryOrThrow token clientFn =
     pRetryOrThrow (\<lambda>s. case client (Some token) s of (c, s1) \<Rightarrow> in_world (clientFn c) s1)"

definition retryObtainTokenOrThrow ::
  "(request list \<Rightarrow> error + 't ApiResponse) \<Rightarrow> string \<Rightarrow> (state, 't ApiResponse) promise" where
  "retryObtainTokenOrThrow reply authCode =
     pRetryOrThrow (\<lambda>s. case client None s of (c, s1) \<Rightarrow>
       obtainToken reply c
         \<lparr>clientId = oauthClientId (config s1),
          clientSecret = oauthClientSecret (config s1),
          grantType = ''authorization_code'',
          code = Some authCode,
          refreshToken = None\<rparr> s1)"

definition retryRefreshTokenOrThrow ::
  "(request list \<Rightarrow> error + 't ApiResponse) \<Rightarrow> string \<Rightarrow> (state, 't ApiResponse) promise" where
  "retryRefreshTokenOrThrow reply refresh =
     pRetryOrThrow (\<lambda>s. case client None s of (c, s1) \<Rightarrow>
       obtainToken reply c
         \<lparr>clientId = oauthClientId (config s1),
          clientSecret = oauthClientSecret (config s1),
          grantType = ''refresh_token'',
          code = None,
          refreshToken = Some refresh\<rparr> s1)"

text \<open>\<^verbatim>\<open>Array.prototype.join\<close> on strings.\<close>

fun join :: "string list \<Rightarrow> string \<Rightarrow> string" where
  "join [] sep = []"
| "join [x] sep = x"
| "join (x # y # ys) sep = x @ sep @ join (y # ys) sep"

text \<open>\<^verbatim>\<open>listCatalogResponse?.result.objects ?? []\<close>\<close>

definition objects_or_empty :: "'o ListCatalogResponse ApiResponse \<Rightarrow> 'o list" where
  "objects_or_empty listCatalogResponse =
     (case objects (result listCatalogResponse) of None \<Rightarrow> [] | Some os \<Rightarrow> os)"

text \<open>
  The \<^verbatim>\<open>while (cursor !== undefined)\<close> loop of \<^verbatim>\<open>accumulateCatalogOrThrow\<close>. Nothing bounds
  the number of pages, so the loop is a partial function: \<open>None\<close> is a run that never
  returns. A rejected request leaves the loop with the error.
\<close>

partial_function (option) accumulate_while ::
  "(request list \<Rightarrow> error + 'o ListCatalogResponse ApiResponse) \<Rightarrow> Client \<Rightarrow> string
     \<Rightarrow> string option \<Rightarrow> 'o list \<Rightarrow> state \<Rightarrow> ((error + 'o list) \<times> state) option" where
  "accumulate_while reply c theTypes cur catalogObjects s =
     (case cur of
        None \<Rightarrow> Some (Inr catalogObjects, s)
      | Some _ \<Rightarrow>
          (case pRetryOrThrow (listCatalog reply c cur theTypes) s of
             (Inl e, s') \<Rightarrow> Some (Inl e, s')
           | (Inr listCatalogResponse, s') \<Rightarrow>
               accumulate_while reply c theTypes
                 (cursor (result listCatalogResponse))
                 (catalogObjects @ objects_or_empty listCatalogResponse) s'))"

text \<open>
  The catalog object types are the members of an enum declared outside the files at hand;
  they are taken as the strings that \<^verbatim>\<open>join\<close> renders them to.
\<close>

definition accumulateCatalogOrThrow ::
  "(request list \<Rightarrow> error + 'o ListCatalogResponse ApiResponse) \<Rightarrow> string \<Rightarrow> string list
     \<Rightarrow> state \<Rightarrow> ((error + 'o list) \<times> state) option" where
  "accumulateCatalogOrThrow reply token types s =
     (case client (Some token) s of (c, s0) \<Rightarrow>
        (let catalogObjects = [];
             theTypes = join types '',''
         in case pRetryOrThrow (listCatalog reply c None theTypes) s0 of
              (Inl e, s') \<Rightarrow> Some (Inl e, s')
            | (Inr listCatalogResponse, s') \<Rightarrow>
                accumulate_while reply c theTypes
                  (cursor (result listCatalogResponse))
                  (catalogObjects @ objects_or_empty listCatalogResponse) s'))"

definition bufferToStream :: "Buffer \<Rightarrow> Readable" where
  "bufferToStream b = b"

record UploadParams =
  up_accessToken :: string
  up_idempotencyKey :: string
  up_id :: string
  up_objectId :: "string option"
  up_file :: NestSquareFile
  up_caption :: "string option"

definition uploadCatalogImageOrThrow ::
  "(request list \<Rightarrow> error + 'i ApiResponse) \<Rightarrow> UploadParams \<Rightarrow> (state, 'i) promise" where
  "uploadCatalogImageOrThrow reply params s =
     (let fileStream' = bufferToStream (buffer (up_file params));
          fileWrapper = \<lparr>fileStream = fileStream', contentType = mimetype (up_file params)\<rparr>
      in case pRetryOrThrow (\<lambda>s. case client (Some (up_accessToken params)) s of (c, s1) \<Rightarrow>
                createCatalogImage reply c
                  \<lparr>idempotencyKey = up_idempotencyKey params,
                   objectId = up_objectId params,
                   imageObject =
                     \<lparr>imageType = ''IMAGE'',
                      imageId = ''#'' @ up_id params,
                      imageData = \<lparr>caption = up_caption params\<rparr>\<rparr>\<rparr>
                  fileWrapper s1) s of
           (Inl e, s') \<Rightarrow> (Inl e, s')
         | (Inr response, s') \<Rightarrow> (Inr (result response), s'))"

section \<open>A vendor that serves pages\<close>

text \<open>
  A vendor that answers the \<open>n\<close>-th request it receives with the \<open>n\<close>-th response of a
  given sequence, counting from 0, and never fails.
\<close>

definition serve :: "(nat \<Rightarrow> 'r) \<Rightarrow> request list \<Rightarrow> error + 'r" where
  "serve pages sent = Inr (pages (length sent - 1))"

section \<open>The configuration factory\<close>

text \<open>
  \<^verbatim>\<open>process.env\<close> maps the name of each variable that is set to its value, a string.
  \<^verbatim>\<open>plainToClass\<close> copies the variables into a \<^verbatim>\<open>SquareConfigValidator\<close>, whose three
  properties carry \<^verbatim>\<open>@IsString()\<close>; a property that is not set stays \<^verbatim>\<open>undefined\<close>.
  \<^verbatim>\<open>validateSync\<close> (of the package class-validator) returns one error for each decorated
  property that fails its check; an error is modelled by the name of its property.
\<close>

type_synonym env = "string \<rightharpoonup> string"

definition IsString :: "string option \<Rightarrow> bool" where
  "IsString v = (case v of None \<Rightarrow> False | Some _ \<Rightarrow> True)"

definition SquareConfigValidator :: "string list" where
  "SquareConfigValidator =
     [''SQUARE_OAUTH_CLIENT_ID'', ''SQUARE_OAUTH_CLIENT_SECRET'', ''SQUARE_CLIENT_ENVIRONMENT'']"

definition validateSync :: "env \<Rightarrow> string list" where
  "validateSync process_env =
     filter (\<lambda>property. \<not> IsString (process_env property)) SquareConfigValidator"

text \<open>
  The factory registered as \<^verbatim>\<open>NestSquareConfig\<close>: \<open>Inl\<close> of the validation errors when it
  throws. The non-null assertions \<^verbatim>\<open>process.env.X!\<close> are \<open>the\<close>; they are reached only
  after validation has found the three variables set.
\<close>

definition NestSquareConfig :: "env \<Rightarrow> string list + NestSquareConfigType" where
  "NestSquareConfig process_env =
     (let errors = validateSync process_env
      in if length errors > 0 then Inl errors
         else Inr \<lparr>clientEnvironment = the (process_env ''SQUARE_CLIENT_ENVIRONMENT''),
                   oauthClientId = the (process_env ''SQUARE_OAUTH_CLIENT_ID''),
                   oauthClientSecret = the (process_env ''SQUARE_OAUTH_CLIENT_SECRET'')\<rparr>)"

section \<open>Sample inputs\<close>

text \<open>
  Wrapped functions over a counter of calls: \<open>flaky\<close> fails twice with status 503 and then
  with status 404; \<open>exhausting\<close> fails ten times with status 503 and then with a network
  error; \<open>rate_limited\<close> always fails with status 429; \<open>offline\<close> always fails with a
  network error that is an \<^verbatim>\<open>Error\<close>.
\<close>

definition flaky :: "(nat, string) promise" where
  "flaky n =
     (if n < 2 then Inl (ApiError 503) else if n = 2 then Inl (ApiError 404) else Inr ''ok'', Suc n)"

definition exhausting :: "(nat, string) promise" where
  "exhausting n = (if n < 10 then Inl (ApiError 503) else Inl (Error ''socket hang up''), Suc n)"

definition rate_limited :: "(nat, string) promise" where
  "rate_limited n = (Inl (ApiError 429), Suc n)"

definition offline :: "(nat, string) promise" where
  "offline n = (Inl (Error ''getaddrinfo ENOTFOUND''), Suc n)"

text \<open>
  Wrapped functions that throw a string, the library's \<^verbatim>\<open>AbortError\<close> around an error, and
  a \<^verbatim>\<open>TypeError\<close>.
\<close>

definition throws_string :: "(nat, string) promise" where
  "throws_string n = (Inl (NonError ''timeout''), Suc n)"

definition aborting :: "(nat, string) promise" where
  "aborting n = (Inl (AbortError (Error ''stop'')), Suc n)"

definition mistyped :: "(nat, string) promise" where
  "mistyped n = (Inl (TypeError ''x is not a function''), Suc n)"

text \<open>Process environments: complete, without the client secret, and with an empty client id.\<close>

definition env_complete :: env where
  "env_complete = [''SQUARE_CLIENT_ENVIRONMENT'' \<mapsto> ''sandbox'',
                   ''SQUARE_OAUTH_CLIENT_ID'' \<mapsto> ''sq0idp-1'',
                   ''SQUARE_OAUTH_CLIENT_SECRET'' \<mapsto> ''sq0csp-2'']"

definition env_no_secret :: env where
  "env_no_secret = [''SQUARE_CLIENT_ENVIRONMENT'' \<mapsto> ''sandbox'',
                    ''SQUARE_OAUTH_CLIENT_ID'' \<mapsto> ''sq0idp-1'']"

definition env_empty_id :: env where
  "env_empty_id = [''SQUARE_CLIENT_ENVIRONMENT'' \<mapsto> ''sandbox'',
                   ''SQUARE_OAUTH_CLIENT_ID'' \<mapsto> '''',
                   ''SQUARE_OAUTH_CLIENT_SECRET'' \<mapsto> ''sq0csp-2'']"

text \<open>
  A configuration, and the state of a service that holds it and has sent nothing yet.
\<close>

definition cfg0 :: NestSquareConfigType where
  "cfg0 = \<lparr>clientEnvironment = ''sandbox'', oauthClientId = ''sq0idp-1'',
           oauthClientSecret = ''sq0csp-2''\<rparr>"

definition s0 :: state where
  "s0 = \<lparr>config = cfg0, requests = []\<rparr>"

text \<open>
  Vendors: a catalog of two pages, the first with a cursor; a token endpoint that fails the
  first request with status 503 and answers the second; an image endpoint that answers at
  once. \<open>reading\<close> is a caller's function for \<open>retryOrThrow\<close> that sends nothing.
\<close>

definition two_pages :: "nat \<Rightarrow> string ListCatalogResponse ApiResponse" where
  "two_pages n =
     (if n = 0
      then \<lparr>statusCode = 200, body = ''p0'',
            result = \<lparr>cursor = Some ''c1'', objects = Some [''a'', ''b'']\<rparr>\<rparr>
      else \<lparr>statusCode = 200, body = ''p1'',
            result = \<lparr>cursor = None, objects = Some [''c'']\<rparr>\<rparr>)"

definition token_server :: "request list \<Rightarrow> error + string ApiResponse" where
  "token_server sent =
     (if length sent < 2 then Inl (ApiError 503)
      else Inr \<lparr>statusCode = 200, body = ''{}'', result = ''token-1''\<rparr>)"

definition image_server :: "request list \<Rightarrow> error + string ApiResponse" where
  "image_server sent = Inr \<lparr>statusCode = 200, body = ''{}'', result = ''image-1''\<rparr>"

definition upload0 :: UploadParams where
  "upload0 =
     \<lparr>up_accessToken = ''tok'', up_idempotencyKey = ''key-1'', up_id = ''img'',
      up_objectId = Some ''obj-9'',
      up_file = \<lparr>buffer = [0xFF, 0xD8], mimetype = ''image/jpeg''\<rparr>,
      up_caption = Some ''front''\<rparr>"

definition reading :: "Client \<Rightarrow> (request list, string) promise" where
  "reading c sent = (Inr ''done'', sent)"

section \<open>The attempts of a run\<close>

text \<open>
  How a run of at most \<open>Suc k\<close> attempts ends, given the outcomes \<open>new\<close> of its attempts:
  with the value of the last attempt, or with what the callback throws for its error; and a
  retryable error ends a run only at the last permitted attempt.
\<close>

definition final_outcome :: "nat \<Rightarrow> (error + 'a) list \<Rightarrow> (error + 'a) \<Rightarrow> bool" where
  "final_outcome k new r =
     (case last new of
        Inr v \<Rightarrow> r = Inr v
      | Inl e \<Rightarrow> r = Inl (rethrown e) \<and> (if retryable e then length new = Suc k else True))"

lemmas run_simps = pRetryOrThrow_def retries_def eval_nat_numeral traced_def onFailedAttempt_def
  Let_def INTERNAL_SERVER_ERROR_def TOO_MANY_REQUESTS_def

lemmas config_simps = NestSquareConfig_def validateSync_def SquareConfigValidator_def IsString_def
  Let_def

lemmas sdk_simps = client_def obtainToken_def listCatalog_def createCatalogImage_def in_world_def
  send_def

lemma onFailedAttempt_None:
  "onFailedAttempt e k = None \<longleftrightarrow> retryable e \<and> k \<noteq> 0"
  by (cases e)
    (auto simp: onFailedAttempt_def INTERNAL_SERVER_ERROR_def TOO_MANY_REQUESTS_def Let_def)

lemma onFailedAttempt_Some:
  "onFailedAttempt e k = Some t \<longleftrightarrow>
     t = (if is_ApiError e then InternalServerErrorException e else e) \<and> (retryable e \<longrightarrow> k = 0)"
  by (cases e)
    (auto simp: onFailedAttempt_def INTERNAL_SERVER_ERROR_def TOO_MANY_REQUESTS_def
       Let_def split: if_splits)

lemma retryable_not_at_once: "retryable e \<Longrightarrow> rejects_at_once e = None"
  by (cases e) auto

lemma rethrown_retryable: "retryable e \<Longrightarrow> rethrown e = InternalServerErrorException e"
  by (cases e) (auto simp: rethrown_def)

lemma rethrown_TypeError: "rethrown (TypeError message) = TypeError message"
  by (simp add: rethrown_def)

text \<open>No error is the wrapper of itself, nor the wrapper of the abort around itself.\<close>

lemma never_own_wrapper:
  "x \<noteq> InternalServerErrorException x" "x \<noteq> InternalServerErrorException (AbortError x)"
proof -
  have "size x < size (InternalServerErrorException x)" by simp
  then show "x \<noteq> InternalServerErrorException x" by (metis less_irrefl)
  have "size x < size (InternalServerErrorException (AbortError x))" by simp
  then show "x \<noteq> InternalServerErrorException (AbortError x)" by (metis less_irrefl)
qed

text \<open>
  One attempt of the retry helper with the callback of the service: a retryable failure with
  a retry left leads to the next attempt, any other failure ends the run.
\<close>

lemma pRetry_last:
  "pRetry input onFailedAttempt 0 s =
     (case input s of (Inr v, s') \<Rightarrow> (Inr v, s') | (Inl e, s') \<Rightarrow> (Inl (rethrown e), s'))"
proof -
  obtain o1 s1 where f: "input s = (o1, s1)" by (cases "input s")
  show ?thesis
  proof (cases o1)
    case (Inr v)
    with f show ?thesis by simp
  next
    case (Inl e)
    show ?thesis
    proof (cases "rejects_at_once e")
      case (Some x)
      with f Inl show ?thesis by (simp add: rethrown_def)
    next
      case None
      obtain t where t: "onFailedAttempt e 0 = Some t"
        using onFailedAttempt_None[of e 0] by (cases "onFailedAttempt e 0") auto
      then have "t = rethrown e" using None by (simp add: onFailedAttempt_Some rethrown_def)
      with f Inl None t show ?thesis by simp
    qed
  qed
qed

lemma pRetry_next:
  "pRetry input onFailedAttempt (Suc k) s =
     (case input s of
        (Inr v, s') \<Rightarrow> (Inr v, s')
      | (Inl e, s') \<Rightarrow>
          (if retryable e then pRetry input onFailedAttempt k s' else (Inl (rethrown e), s')))"
proof -
  obtain o1 s1 where f: "input s = (o1, s1)" by (cases "input s")
  show ?thesis
  proof (cases o1)
    case (Inr v)
    with f show ?thesis by simp
  next
    case (Inl e)
    show ?thesis
    proof (cases "retryable e")
      case True
      then have "rejects_at_once e = None" "onFailedAttempt e (Suc k) = None"
        by (simp_all add: retryable_not_at_once onFailedAttempt_None)
      with f Inl True show ?thesis by simp
    next
      case False
      show ?thesis
      proof (cases "rejects_at_once e")
        case (Some x)
        with f Inl False show ?thesis by (simp add: rethrown_def)
      next
        case None
        obtain t where t: "onFailedAttempt e (Suc k) = Some t"
          using onFailedAttempt_None[of e "Suc k"] False by (cases "onFailedAttempt e (Suc k)") auto
        then have "t = rethrown e" using None by (simp add: onFailedAttempt_Some rethrown_def)
        with f Inl None t False show ?thesis by simp
      qed
    qed
  qed
qed

lemma pRetry_traced:
  "pRetry (traced fn) onFailedAttempt k (s, tr0) = (r, (s', tr)) \<Longrightarrow>
   \<exists>new. tr = tr0 @ new \<and> new \<noteq> [] \<and> length new \<le> Suc k \<and>
     (\<forall>i. Suc i < length new \<longrightarrow> (\<exists>e. new ! i = Inl e \<and> retryable e)) \<and>
     final_outcome k new r"
proof (induction k arbitrary: s tr0)
  case 0
  obtain o1 s1 where f: "fn s = (o1, s1)" by (cases "fn s")
  from 0 f show ?case
    by (cases o1) (auto simp: pRetry_last traced_def final_outcome_def simp del: pRetry.simps)
next
  case (Suc k)
  obtain o1 s1 where f: "fn s = (o1, s1)" by (cases "fn s")
  show ?case
  proof (cases o1)
    case (Inr v)
    with Suc.prems f show ?thesis
      by (auto simp: pRetry_next traced_def final_outcome_def simp del: pRetry.simps)
  next
    case (Inl e)
    show ?thesis
    proof (cases "retryable e")
      case False
      with Suc.prems f Inl show ?thesis
        by (auto simp: pRetry_next traced_def final_outcome_def simp del: pRetry.simps)
    next
      case re: True
      with Suc.prems f Inl
      have "pRetry (traced fn) onFailedAttempt k (s1, tr0 @ [Inl e]) = (r, (s', tr))"
        by (simp add: pRetry_next traced_def del: pRetry.simps)
      from Suc.IH[OF this] obtain new where n:
        "tr = (tr0 @ [Inl e]) @ new" "new \<noteq> []" "length new \<le> Suc k"
        "\<forall>i. Suc i < length new \<longrightarrow> (\<exists>e. new ! i = Inl e \<and> retryable e)"
        "final_outcome k new r"
        by blast
      let ?new = "Inl e # new"
      have "tr = tr0 @ ?new" using n by simp
      moreover have "?new \<noteq> []" by simp
      moreover have "length ?new \<le> Suc (Suc k)" using n by simp
      moreover have "\<forall>i. Suc i < length ?new \<longrightarrow> (\<exists>e. ?new ! i = Inl e \<and> retryable e)"
        using n(4) re by (auto simp: nth_Cons split: nat.splits)
      moreover have "final_outcome (Suc k) ?new r"
        using n(2,5) by (auto simp: final_outcome_def split: sum.splits)
      ultimately show ?thesis by blast
    qed
  qed
qed

text \<open>Observing the wrapped function does not change the run.\<close>

lemma pRetry_traced_same:
  "pRetry (traced fn) h k (s, tr0) = (r, (s', tr)) \<Longrightarrow> pRetry fn h k s = (r, s')"
proof (induction k arbitrary: s tr0)
  case 0
  then show ?case by (auto simp: traced_def split: prod.splits sum.splits option.splits)
next
  case (Suc k)
  then show ?case by (auto simp: traced_def split: prod.splits sum.splits option.splits)
qed

lemma pRetryOrThrow_traced:
  assumes "pRetryOrThrow (traced fn) (s, []) = (r, (s', tr))"
  shows "tr \<noteq> []" and "length tr \<le> Suc retries"
    and "\<And>i. Suc i < length tr \<Longrightarrow> \<exists>e. tr ! i = Inl e \<and> retryable e"
    and "final_outcome retries tr r"
  using pRetry_traced[of fn retries s "[]" r s' tr] assms
  by (auto simp: pRetryOrThrow_def)

lemma pRetryOrThrow_traced_stop:
  assumes run: "pRetryOrThrow (traced fn) (s, []) = (r, (s', tr))"
    and i: "i < length tr" "tr ! i = Inl e" "\<not> retryable e \<or> i = retries"
  shows "Suc i = length tr \<and> r = Inl (rethrown e)"
proof -
  note t = pRetryOrThrow_traced[OF run]
  have "\<not> Suc i < length tr"
  proof
    assume lt: "Suc i < length tr"
    from t(3)[OF lt] i(2) have "retryable e" by auto
    with i(3) have "i = retries" by simp
    with lt t(2) show False by simp
  qed
  with i(1) have last: "Suc i = length tr" by simp
  then have "last tr = tr ! i" using t(1) by (metis diff_Suc_1 last_conv_nth)
  with t(4) i(2) have "r = Inl (rethrown e)" by (simp add: final_outcome_def split: if_splits)
  with last show ?thesis by simp
qed

section \<open>Claims about the retry helper\<close>

text \<open>
  Claim C1. In every run of \<open>pRetryOrThrow\<close>, whatever the wrapped function and the state:
  an attempt that failed is followed by another attempt only when its error is a vendor
  \<^verbatim>\<open>ApiError\<close> whose status code is at least 500 or equal to 429; a failure with any other
  error is the last attempt of the run, and the run ends by throwing. The public retry
  operations of the service are all defined through \<open>pRetryOrThrow\<close>.
\<close>

theorem pRetryOrThrow_retries_only_retryable:
  assumes "pRetryOrThrow (traced fn) (s, []) = (r, (s', tr))"
    and "i < length tr" and "tr ! i = Inl e"
  shows "(Suc i < length tr \<longrightarrow>
            (\<exists>statusCode. e = ApiError statusCode \<and> (statusCode \<ge> 500 \<or> statusCode = 429)))
       \<and> (\<not> (\<exists>statusCode. e = ApiError statusCode \<and> (statusCode \<ge> 500 \<or> statusCode = 429))
            \<longrightarrow> Suc i = length tr \<and> isl r)"
proof -
  have re: "retryable e \<longleftrightarrow>
      (\<exists>statusCode. e = ApiError statusCode \<and> (statusCode \<ge> 500 \<or> statusCode = 429))"
    by (cases e) (auto simp: INTERNAL_SERVER_ERROR_def TOO_MANY_REQUESTS_def)
  have "Suc i < length tr \<longrightarrow> retryable e"
    using pRetryOrThrow_traced(3)[OF assms(1), of i] assms(3) by auto
  moreover have "\<not> retryable e \<longrightarrow> Suc i = length tr \<and> isl r"
    using pRetryOrThrow_traced_stop[OF assms(1,2,3)] by auto
  ultimately show ?thesis unfolding re by blast
qed

text \<open>
  Claim C1, at a concrete run: two failures with status 503 are retried, the failure with
  status 404 is the third and last attempt, and the run throws.
\<close>

theorem pRetryOrThrow_retries_only_retryable_witness:
  "pRetryOrThrow (traced flaky) (0, []) =
     (Inl (InternalServerErrorException (ApiError 404)),
      (3, [Inl (ApiError 503), Inl (ApiError 503), Inl (ApiError 404)]))
   \<and> (\<exists>statusCode. ApiError 503 = ApiError statusCode \<and> (statusCode \<ge> 500 \<or> statusCode = 429))
   \<and> Suc 2 = length [Inl (ApiError 503), Inl (ApiError 503), Inl (ApiError 404) :: error + string]
   \<and> isl (Inl (InternalServerErrorException (ApiError 404)) :: error + string)"
proof -
  have run: "pRetryOrThrow (traced flaky) (0, []) =
     (Inl (InternalServerErrorException (ApiError 404)),
      (3, [Inl (ApiError 503), Inl (ApiError 503), Inl (ApiError 404)]))"
    by (simp add: run_simps flaky_def)
  from pRetryOrThrow_retries_only_retryable[OF run, of 0 "ApiError 503"]
    pRetryOrThrow_retries_only_retryable[OF run, of 2 "ApiError 404"] run
  show ?thesis by simp
qed

text \<open>
  Claim C2 as stated, that the error thrown is the wrapper for every error the wrapped
  function raises, fails: after ten retried failures the eleventh attempt, made with no
  retry left, raises a network error, and the helper throws that error itself, not an
  \<^verbatim>\<open>InternalServerErrorException\<close> around it.
\<close>

theorem pRetryOrThrow_wraps_every_error_counterexample:
  "pRetryOrThrow (traced exhausting) (0, []) =
     (Inl (Error ''socket hang up''),
      (11, replicate 10 (Inl (ApiError 503)) @ [Inl (Error ''socket hang up'')]))
   \<and> retries - 10 = 0
   \<and> fst (pRetryOrThrow (traced exhausting) (0, []))
       \<noteq> Inl (InternalServerErrorException (Error ''socket hang up''))"
  by (simp add: run_simps exhausting_def)

text \<open>
  Claim C2, amended. In every run of \<open>pRetryOrThrow\<close>, when an attempt fails with a vendor
  \<^verbatim>\<open>ApiError\<close> that is not retryable (status below 500 and not 429), or fails with a vendor
  \<^verbatim>\<open>ApiError\<close> when no retry is left (attempt \<open>i\<close>, counted from 0, has
  \<open>retries - i\<close> retries left), the run ends there and throws an
  \<^verbatim>\<open>InternalServerErrorException\<close> wrapping that error.
\<close>

theorem pRetryOrThrow_wraps_ApiError:
  assumes "pRetryOrThrow (traced fn) (s, []) = (r, (s', tr))"
    and "i < length tr" and "tr ! i = Inl (ApiError status)"
    and "(status < 500 \<and> status \<noteq> 429) \<or> retries - i = 0"
  shows "r = Inl (InternalServerErrorException (ApiError status)) \<and> Suc i = length tr"
proof -
  from pRetryOrThrow_traced(2)[OF assms(1)] assms(2,4)
  have "\<not> retryable (ApiError status) \<or> i = retries"
    by (auto simp: INTERNAL_SERVER_ERROR_def TOO_MANY_REQUESTS_def)
  from pRetryOrThrow_traced_stop[OF assms(1,2,3) this]
  show ?thesis by (simp add: rethrown_def)
qed

text \<open>
  Claim C2 as amended, at two concrete runs: a status 404 at the third attempt, and a
  status 429 at the eleventh attempt.
\<close>

theorem pRetryOrThrow_wraps_ApiError_witness:
  "pRetryOrThrow (traced flaky) (0, []) =
     (Inl (InternalServerErrorException (ApiError 404)),
      (3, [Inl (ApiError 503), Inl (ApiError 503), Inl (ApiError 404)]))
   \<and> (404::int) < 500 \<and> (404::int) \<noteq> 429
   \<and> pRetryOrThrow (traced rate_limited) (0, []) =
     (Inl (InternalServerErrorException (ApiError 429)), (11, replicate 11 (Inl (ApiError 429))))
   \<and> retries - 10 = 0
   \<and> Suc 10 = length (replicate 11 (Inl (ApiError 429) :: error + string))"
proof -
  have run: "pRetryOrThrow (traced flaky) (0, []) =
     (Inl (InternalServerErrorException (ApiError 404)),
      (3, [Inl (ApiError 503), Inl (ApiError 503), Inl (ApiError 404)]))"
    by (simp add: run_simps flaky_def)
  have run2: "pRetryOrThrow (traced rate_limited) (0, []) =
     (Inl (InternalServerErrorException (ApiError 429)), (11, replicate 11 (Inl (ApiError 429))))"
    by (simp add: run_simps rate_limited_def)
  from pRetryOrThrow_wraps_ApiError[OF run, of 2 404]
    pRetryOrThrow_wraps_ApiError[OF run2, of 10 429] run run2
  show ?thesis by (simp add: retries_def)
qed

text \<open>
  Claim C9 as stated, that a failure with anything but a vendor \<^verbatim>\<open>ApiError\<close> is rethrown
  unchanged, fails: when the wrapped function throws the string \<^verbatim>\<open>timeout\<close>, the retry
  library ends the run with a new \<^verbatim>\<open>TypeError\<close> that names the string, and that is what
  \<open>pRetryOrThrow\<close> throws, not the string.
\<close>

theorem pRetryOrThrow_rethrows_unchanged_counterexample:
  "pRetryOrThrow (traced throws_string) (0, []) =
     (Inl (TypeError (non_error_message ''timeout'')), (1, [Inl (NonError ''timeout'')]))
   \<and> \<not> is_ApiError (NonError ''timeout'')
   \<and> fst (pRetryOrThrow (traced throws_string) (0, [])) \<noteq> Inl (NonError ''timeout'')"
  by (simp add: run_simps throws_string_def)

text \<open>
  Claim C9, amended. When an attempt of the wrapped function fails with anything that is not
  a vendor \<^verbatim>\<open>ApiError\<close>, the failed attempt is the last of the run, no retry is made for
  it, and what \<open>pRetryOrThrow\<close> throws is not an \<^verbatim>\<open>InternalServerErrorException\<close> around
  it. An \<^verbatim>\<open>Error\<close> other than the retry library's \<^verbatim>\<open>AbortError\<close> is thrown unchanged; for
  a thrown value that is not an \<^verbatim>\<open>Error\<close> a new \<^verbatim>\<open>TypeError\<close> naming the value is thrown,
  and for an \<^verbatim>\<open>AbortError\<close> its \<^verbatim>\<open>originalError\<close>.
\<close>

theorem pRetryOrThrow_rethrows_other_errors:
  assumes "pRetryOrThrow (traced fn) (s, []) = (r, (s', tr))"
    and "i < length tr" and "tr ! i = Inl e" and "\<not> is_ApiError e"
  shows "Suc i = length tr
       \<and> r \<noteq> Inl (InternalServerErrorException e)
       \<and> (case e of
            NonError v \<Rightarrow> r = Inl (TypeError (non_error_message v))
          | AbortError originalError \<Rightarrow> r = Inl originalError
          | _ \<Rightarrow> r = Inl e)"
proof -
  from assms(4) have "\<not> retryable e" by (cases e) auto
  with pRetryOrThrow_traced_stop[OF assms(1,2,3)]
  have last: "Suc i = length tr" and r: "r = Inl (rethrown e)" by simp_all
  have thrown: "case e of
            NonError v \<Rightarrow> rethrown e = TypeError (non_error_message v)
          | AbortError originalError \<Rightarrow> rethrown e = originalError
          | _ \<Rightarrow> rethrown e = e"
    using assms(4) by (cases e) (simp_all add: rethrown_def)
  have "rethrown e \<noteq> InternalServerErrorException e"
    using assms(4) never_own_wrapper[of e] by (cases e) (auto simp: rethrown_def)
  with last r thrown show ?thesis by (cases e) simp_all
qed

text \<open>
  Claim C9 as amended, at four concrete runs of one attempt each: a network error that is an
  \<^verbatim>\<open>Error\<close> and a \<^verbatim>\<open>TypeError\<close> are thrown unchanged, a thrown string gives the new
  \<^verbatim>\<open>TypeError\<close>, an \<^verbatim>\<open>AbortError\<close> gives its \<^verbatim>\<open>originalError\<close>.
\<close>

theorem pRetryOrThrow_rethrows_other_errors_witness:
  "pRetryOrThrow (traced offline) (0, []) =
     (Inl (Error ''getaddrinfo ENOTFOUND''), (1, [Inl (Error ''getaddrinfo ENOTFOUND'')]))
   \<and> pRetryOrThrow (traced mistyped) (0, []) =
     (Inl (TypeError ''x is not a function''), (1, [Inl (TypeError ''x is not a function'')]))
   \<and> pRetryOrThrow (traced throws_string) (0, []) =
     (Inl (TypeError (non_error_message ''timeout'')), (1, [Inl (NonError ''timeout'')]))
   \<and> pRetryOrThrow (traced aborting) (0, []) =
     (Inl (Error ''stop''), (1, [Inl (AbortError (Error ''stop''))]))
   \<and> Suc 0 = length [Inl (Error ''getaddrinfo ENOTFOUND'') :: error + string]
   \<and> Inl (TypeError ''x is not a function'')
      \<noteq> (Inl (InternalServerErrorException (TypeError ''x is not a function'')) :: error + string)
   \<and> Suc 0 = length [Inl (NonError ''timeout'') :: error + string]
   \<and> Suc 0 = length [Inl (AbortError (Error ''stop'')) :: error + string]"
proof -
  have run1: "pRetryOrThrow (traced offline) (0, []) =
     (Inl (Error ''getaddrinfo ENOTFOUND''), (1, [Inl (Error ''getaddrinfo ENOTFOUND'')]))"
    by (simp add: run_simps offline_def)
  have run2: "pRetryOrThrow (traced mistyped) (0, []) =
     (Inl (TypeError ''x is not a function''), (1, [Inl (TypeError ''x is not a function'')]))"
    by (simp add: run_simps mistyped_def isNetworkError_def)
  have run3: "pRetryOrThrow (traced throws_string) (0, []) =
     (Inl (TypeError (non_error_message ''timeout'')), (1, [Inl (NonError ''timeout'')]))"
    by (simp add: run_simps throws_string_def)
  have run4: "pRetryOrThrow (traced aborting) (0, []) =
     (Inl (Error ''stop''), (1, [Inl (AbortError (Error ''stop''))]))"
    by (simp add: run_simps aborting_def)
  have w1: "Suc 0 = length [Inl (Error ''getaddrinfo ENOTFOUND'') :: error + string]"
    using pRetryOrThrow_rethrows_other_errors[OF run1, of 0 "Error ''getaddrinfo ENOTFOUND''"]
    by simp
  have w2: "Inl (TypeError ''x is not a function'')
      \<noteq> (Inl (InternalServerErrorException (TypeError ''x is not a function'')) :: error + string)"
    using pRetryOrThrow_rethrows_other_errors[OF run2, of 0 "TypeError ''x is not a function''"]
    by simp
  have w3: "Suc 0 = length [Inl (NonError ''timeout'') :: error + string]"
    using pRetryOrThrow_rethrows_other_errors[OF run3, of 0 "NonError ''timeout''"]
    by simp
  have w4: "Suc 0 = length [Inl (AbortError (Error ''stop'')) :: error + string]"
    using pRetryOrThrow_rethrows_other_errors[OF run4, of 0 "AbortError (Error ''stop'')"]
    by simp
  show ?thesis by (intro conjI run1 run2 run3 run4 w1 w2 w3 w4)
qed

section \<open>Claims about the configuration factory\<close>

text \<open>
  Claim C5. \<open>NestSquareConfig\<close> throws when any of \<^verbatim>\<open>SQUARE_CLIENT_ENVIRONMENT\<close>,
  \<^verbatim>\<open>SQUARE_OAUTH_CLIENT_ID\<close>, \<^verbatim>\<open>SQUARE_OAUTH_CLIENT_SECRET\<close> is missing from the process
  environment; when the three are present it returns the record made of exactly their
  values.
\<close>

theorem NestSquareConfig_validates:
  "(process_env ''SQUARE_CLIENT_ENVIRONMENT'' = None \<or> process_env ''SQUARE_OAUTH_CLIENT_ID'' = None
      \<or> process_env ''SQUARE_OAUTH_CLIENT_SECRET'' = None
    \<longrightarrow> (\<exists>errors. NestSquareConfig process_env = Inl errors))
   \<and> (process_env ''SQUARE_CLIENT_ENVIRONMENT'' = Some e \<and> process_env ''SQUARE_OAUTH_CLIENT_ID'' = Some i
      \<and> process_env ''SQUARE_OAUTH_CLIENT_SECRET'' = Some sec
    \<longrightarrow> NestSquareConfig process_env =
          Inr \<lparr>clientEnvironment = e, oauthClientId = i, oauthClientSecret = sec\<rparr>)"
  by (auto simp: config_simps split: option.splits)

text \<open>Claim C5, at an environment without the client secret and at a complete one.\<close>

theorem NestSquareConfig_validates_witness:
  "env_no_secret ''SQUARE_OAUTH_CLIENT_SECRET'' = None
   \<and> (\<exists>errors. NestSquareConfig env_no_secret = Inl errors)
   \<and> env_complete ''SQUARE_CLIENT_ENVIRONMENT'' = Some ''sandbox''
   \<and> env_complete ''SQUARE_OAUTH_CLIENT_ID'' = Some ''sq0idp-1''
   \<and> env_complete ''SQUARE_OAUTH_CLIENT_SECRET'' = Some ''sq0csp-2''
   \<and> NestSquareConfig env_complete =
       Inr \<lparr>clientEnvironment = ''sandbox'', oauthClientId = ''sq0idp-1'',
            oauthClientSecret = ''sq0csp-2''\<rparr>"
proof -
  have a: "env_no_secret ''SQUARE_OAUTH_CLIENT_SECRET'' = None"
    by (simp add: env_no_secret_def)
  have b: "env_complete ''SQUARE_CLIENT_ENVIRONMENT'' = Some ''sandbox''"
    "env_complete ''SQUARE_OAUTH_CLIENT_ID'' = Some ''sq0idp-1''"
    "env_complete ''SQUARE_OAUTH_CLIENT_SECRET'' = Some ''sq0csp-2''"
    by (simp_all add: env_complete_def)
  from NestSquareConfig_validates[of env_no_secret] a
    NestSquareConfig_validates[of env_complete "''sandbox''" "''sq0idp-1''" "''sq0csp-2''"] b
  show ?thesis by simp
qed

text \<open>
  Claim C6 as stated, that every accepted configuration record has three strings of length
  at least 1, fails: with \<^verbatim>\<open>SQUARE_OAUTH_CLIENT_ID\<close> set to the empty string the
  validation passes, and the record's \<open>oauthClientId\<close> has length 0.
\<close>

theorem NestSquareConfig_nonempty_counterexample:
  "NestSquareConfig env_empty_id =
     Inr \<lparr>clientEnvironment = ''sandbox'', oauthClientId = '''', oauthClientSecret = ''sq0csp-2''\<rparr>
   \<and> length (oauthClientId \<lparr>clientEnvironment = ''sandbox'', oauthClientId = '''',
                oauthClientSecret = ''sq0csp-2''\<rparr>) = 0"
  by (simp add: config_simps env_empty_id_def)

text \<open>
  Claim C6, amended. Every configuration record accepted by the validation consists of
  three strings, each the value of its environment variable, which is set; the validation
  checks that each is a string and puts no bound on its length.
\<close>

theorem NestSquareConfig_accepts_strings:
  assumes "NestSquareConfig process_env = Inr c"
  shows "process_env ''SQUARE_CLIENT_ENVIRONMENT'' = Some (clientEnvironment c)
       \<and> process_env ''SQUARE_OAUTH_CLIENT_ID'' = Some (oauthClientId c)
       \<and> process_env ''SQUARE_OAUTH_CLIENT_SECRET'' = Some (oauthClientSecret c)"
  using assms by (auto simp: config_simps split: option.splits if_splits)

text \<open>Claim C6 as amended, at the environment with an empty client id.\<close>

theorem NestSquareConfig_accepts_strings_witness:
  "NestSquareConfig env_empty_id =
     Inr \<lparr>clientEnvironment = ''sandbox'', oauthClientId = '''', oauthClientSecret = ''sq0csp-2''\<rparr>
   \<and> env_empty_id ''SQUARE_CLIENT_ENVIRONMENT'' = Some ''sandbox''
   \<and> env_empty_id ''SQUARE_OAUTH_CLIENT_ID'' = Some ''''
   \<and> env_empty_id ''SQUARE_OAUTH_CLIENT_SECRET'' = Some ''sq0csp-2''"
proof -
  have a: "NestSquareConfig env_empty_id =
     Inr \<lparr>clientEnvironment = ''sandbox'', oauthClientId = '''', oauthClientSecret = ''sq0csp-2''\<rparr>"
    by (simp add: config_simps env_empty_id_def)
  from NestSquareConfig_accepts_strings[OF a] a show ?thesis by simp
qed

section \<open>Requests sent through the retry helper\<close>

text \<open>
  A call lifted from the vendor to the state appends its request and leaves the
  configuration alone.
\<close>

lemma in_world_send:
  "in_world (send reply rq) s = (reply (requests s @ [rq]), s\<lparr>requests := requests s @ [rq]\<rparr>)"
  by (simp add: in_world_def send_def)

lemma in_world_config: "config (snd (in_world call s)) = config s"
  by (simp add: in_world_def split: prod.splits)

lemma listCatalog_config: "config (snd (listCatalog reply c cur tys s)) = config s"
  by (simp add: listCatalog_def in_world_config)

text \<open>
  A wrapped function that resolves at once is called once.
\<close>

lemma pRetry_resolves:
  "fn s = (Inr v, s') \<Longrightarrow> pRetry fn h k s = (Inr v, s')"
  by (cases k) simp_all

lemma pRetryOrThrow_resolves:
  "fn s = (Inr v, s') \<Longrightarrow> pRetryOrThrow fn s = (Inr v, s')"
  by (simp add: pRetryOrThrow_def pRetry_resolves)

text \<open>
  A wrapped function that sends one request, built from the configuration, sends that
  same request between 1 and \<open>Suc k\<close> times; the run settles with the vendor's last
  answer, an error as \<open>rethrown\<close> gives it.
\<close>

lemma pRetry_send:
  assumes fn: "\<And>s. fn s = in_world (send reply (mk (config s))) s"
  shows "\<exists>n. 1 \<le> n \<and> n \<le> Suc k \<and>
     pRetry fn onFailedAttempt k s =
       (map_sum rethrown (\<lambda>v. v) (reply (requests s @ replicate n (mk (config s)))),
        s\<lparr>requests := requests s @ replicate n (mk (config s))\<rparr>)"
proof (induction k arbitrary: s)
  case 0
  have "pRetry fn onFailedAttempt 0 s =
       (map_sum rethrown (\<lambda>v. v) (reply (requests s @ replicate 1 (mk (config s)))),
        s\<lparr>requests := requests s @ replicate 1 (mk (config s))\<rparr>)"
    by (cases "reply (requests s @ [mk (config s)])")
      (simp_all add: pRetry_last fn in_world_send del: pRetry.simps)
  then show ?case by (intro exI[of _ 1]) simp
next
  case (Suc k)
  let ?rq = "mk (config s)"
  let ?s1 = "s\<lparr>requests := requests s @ [?rq]\<rparr>"
  have once: "\<not> (\<exists>e. reply (requests s @ [?rq]) = Inl e \<and> retryable e) \<Longrightarrow>
      pRetry fn onFailedAttempt (Suc k) s =
       (map_sum rethrown (\<lambda>v. v) (reply (requests s @ replicate 1 ?rq)),
        s\<lparr>requests := requests s @ replicate 1 ?rq\<rparr>)"
    by (cases "reply (requests s @ [?rq])")
      (simp_all add: pRetry_next fn in_world_send del: pRetry.simps)
  show ?case
  proof (cases "\<exists>e. reply (requests s @ [?rq]) = Inl e \<and> retryable e")
    case False
    from once[OF this] show ?thesis by (intro exI[of _ 1]) simp
  next
    case True
    then have step: "pRetry fn onFailedAttempt (Suc k) s = pRetry fn onFailedAttempt k ?s1"
      by (auto simp: pRetry_next fn in_world_send simp del: pRetry.simps)
    from Suc.IH[of ?s1] obtain n where n: "1 \<le> n" "n \<le> Suc k"
      "pRetry fn onFailedAttempt k ?s1 =
         (map_sum rethrown (\<lambda>v. v) (reply (requests ?s1 @ replicate n (mk (config ?s1)))),
          ?s1\<lparr>requests := requests ?s1 @ replicate n (mk (config ?s1))\<rparr>)"
      by blast
    have "pRetry fn onFailedAttempt (Suc k) s =
         (map_sum rethrown (\<lambda>v. v) (reply (requests s @ replicate (Suc n) ?rq)),
          s\<lparr>requests := requests s @ replicate (Suc n) ?rq\<rparr>)"
      using step n(3) by simp
    with n(1,2) show ?thesis by (intro exI[of _ "Suc n"]) simp
  qed
qed

lemma pRetryOrThrow_send:
  assumes fn: "\<And>s. fn s = in_world (send reply (mk (config s))) s"
  shows "\<exists>n. 1 \<le> n \<and> n \<le> 11 \<and>
     pRetryOrThrow fn s =
       (map_sum rethrown (\<lambda>v. v) (reply (requests s @ replicate n (mk (config s)))),
        s\<lparr>requests := requests s @ replicate n (mk (config s))\<rparr>)"
  using pRetry_send[OF fn, of retries s] by (simp add: pRetryOrThrow_def retries_def)

text \<open>
  The retry helper changes the configuration only if the wrapped function does.
\<close>

lemma pRetry_config:
  assumes "\<And>s. config (snd (fn s)) = config s"
  shows "config (snd (pRetry fn h k s)) = config s"
proof (induction k arbitrary: s)
  case 0
  from assms[of s] show ?case by (auto split: prod.splits sum.splits option.splits)
next
  case (Suc k)
  from assms[of s] Suc.IH show ?case by (auto split: prod.splits sum.splits option.splits)
qed

lemma pRetryOrThrow_config:
  assumes "\<And>s. config (snd (fn s)) = config s"
  shows "config (snd (pRetryOrThrow fn s)) = config s"
  unfolding pRetryOrThrow_def using assms by (rule pRetry_config)

section \<open>The pagination loop on a sequence of pages\<close>

lemma accumulate_while_config:
  "accumulate_while reply c tys cur acc s = Some y \<Longrightarrow> config (snd y) = config s"
proof (induction reply c tys cur acc s y rule: accumulate_while.raw_induct[rotated, consumes 1])
  case (1 f reply c theTypes cur catalogObjects s y)
  show ?case
  proof (cases cur)
    case None
    with 1(2) show ?thesis by auto
  next
    case (Some x)
    obtain o1 s1 where p: "pRetryOrThrow (listCatalog reply c cur theTypes) s = (o1, s1)"
      by (cases "pRetryOrThrow (listCatalog reply c cur theTypes) s")
    have c1: "config s1 = config s"
      using pRetry_config[where fn = "listCatalog reply c cur theTypes" and s = s and h = onFailedAttempt and k = retries] p
      by (simp add: pRetryOrThrow_def listCatalog_config)
    show ?thesis
    proof (cases o1)
      case (Inl e)
      with 1(2) Some p c1 show ?thesis by auto
    next
      case (Inr resp)
      with 1(2) Some p have "f reply c theTypes (cursor (result resp))
          (catalogObjects @ objects_or_empty resp) s1 = Some y" by simp
      from 1(1)[OF this] c1 show ?thesis by simp
    qed
  qed
qed

lemma pRetryOrThrow_listCatalog_serve:
  "pRetryOrThrow (listCatalog (serve pages) c cur tys) s =
     (Inr (pages (length (requests s))), s\<lparr>requests := requests s @ [ListCatalog c cur tys]\<rparr>)"
  by (rule pRetryOrThrow_resolves) (simp add: listCatalog_def in_world_def send_def serve_def)

text \<open>
  Entered after page \<open>p\<close> with its cursor, the loop requests the pages up to the
  first one without a cursor, page \<open>k\<close>, and returns.
\<close>

lemma accumulate_while_serve:
  assumes k: "cursor (result (pages k)) = None" "\<forall>j<k. cursor (result (pages j)) \<noteq> None"
  shows "length (requests s) = Suc p \<Longrightarrow> p \<le> k \<Longrightarrow>
     accumulate_while (serve pages) c tys (cursor (result (pages p))) acc s =
       Some (Inr (acc @ concat (map (\<lambda>j. objects_or_empty (pages j)) [Suc p..<Suc k])),
             s\<lparr>requests := requests s @
                 map (\<lambda>j. ListCatalog c (cursor (result (pages j))) tys) [p..<k]\<rparr>)"
proof (induction "k - p" arbitrary: p acc s)
  case 0
  then have "p = k" by simp
  with k(1) show ?case by (subst accumulate_while.simps) simp
next
  case (Suc d)
  then have lt: "p < k" by simp
  with k(2) obtain x where x: "cursor (result (pages p)) = Some x" by auto
  let ?s1 = "s\<lparr>requests := requests s @ [ListCatalog c (Some x) tys]\<rparr>"
  have IH: "accumulate_while (serve pages) c tys (cursor (result (pages (Suc p))))
       (acc @ objects_or_empty (pages (Suc p))) ?s1 =
       Some (Inr ((acc @ objects_or_empty (pages (Suc p))) @
                  concat (map (\<lambda>j. objects_or_empty (pages j)) [Suc (Suc p)..<Suc k])),
             ?s1\<lparr>requests := requests ?s1 @
                 map (\<lambda>j. ListCatalog c (cursor (result (pages j))) tys) [Suc p..<k]\<rparr>)"
    using Suc.hyps(2) Suc.prems lt by (intro Suc.hyps(1)) auto
  have upt1: "[Suc p..<Suc k] = Suc p # [Suc (Suc p)..<Suc k]" using lt by (simp add: upt_conv_Cons)
  have upt2: "[p..<k] = p # [Suc p..<k]" using lt by (simp add: upt_conv_Cons)
  show ?case
    apply (subst accumulate_while.simps)
    apply (simp only: x option.case pRetryOrThrow_listCatalog_serve prod.case sum.case Suc.prems(1))
    apply (simp only: IH upt1 upt2)
    apply (simp add: x)
    done
qed

lemma accumulateCatalogOrThrow_serve:
  assumes "requests s = []"
    and "cursor (result (pages k)) = None" "\<forall>j<k. cursor (result (pages j)) \<noteq> None"
  shows "accumulateCatalogOrThrow (serve pages) token types s =
       Some (Inr (concat (map (\<lambda>j. objects_or_empty (pages j)) [0..<Suc k])),
             s\<lparr>requests :=
                 ListCatalog \<lparr>accessToken = Some token, environment = clientEnvironment (config s)\<rparr>
                   None (join types '','')
                 # map (\<lambda>j. ListCatalog
                          \<lparr>accessToken = Some token, environment = clientEnvironment (config s)\<rparr>
                          (cursor (result (pages j))) (join types '','')) [0..<k]\<rparr>)"
proof -
  let ?c = "\<lparr>accessToken = Some token, environment = clientEnvironment (config s)\<rparr>"
  let ?s1 = "s\<lparr>requests := requests s @ [ListCatalog ?c None (join types '','')]\<rparr>"
  have loop: "accumulate_while (serve pages) ?c (join types '','') (cursor (result (pages 0)))
       ([] @ objects_or_empty (pages 0)) ?s1 =
       Some (Inr (([] @ objects_or_empty (pages 0)) @
                 concat (map (\<lambda>j. objects_or_empty (pages j)) [Suc 0..<Suc k])),
             ?s1\<lparr>requests := requests ?s1 @
                 map (\<lambda>j. ListCatalog ?c (cursor (result (pages j))) (join types '','')) [0..<k]\<rparr>)"
    using assms by (intro accumulate_while_serve) auto
  have upt: "[0..<Suc k] = 0 # [Suc 0..<Suc k]" by (simp add: upt_conv_Cons)
  show ?thesis
    unfolding accumulateCatalogOrThrow_def client_def
    apply (simp only: prod.case Let_def pRetryOrThrow_listCatalog_serve sum.case assms(1) list.size)
    apply (simp only: loop[unfolded assms(1)] upt)
    apply (simp add: assms(1))
    done
qed

text \<open>
  When every page carries a cursor, the loop returns nothing: it runs forever.
\<close>

lemma accumulate_while_serve_endless:
  assumes "\<forall>j. cursor (result (pages j)) \<noteq> None"
  shows "accumulate_while reply c tys cur acc s = Some y \<Longrightarrow> reply = serve pages \<Longrightarrow> cur = None"
proof (induction reply c tys cur acc s y rule: accumulate_while.raw_induct[rotated, consumes 1])
  case (1 f reply c theTypes cur catalogObjects s y)
  show ?case
  proof (cases cur)
    case None
    then show ?thesis by simp
  next
    case (Some x)
    with 1(2,3) have "f (serve pages) c theTypes
       (cursor (result (pages (length (requests s)))))
       (catalogObjects @ objects_or_empty (pages (length (requests s))))
       (s\<lparr>requests := requests s @ [ListCatalog c cur theTypes]\<rparr>) = Some y"
      by (simp add: pRetryOrThrow_listCatalog_serve)
    from 1(1)[OF this] assms show ?thesis by simp
  qed
qed

lemma accumulateCatalogOrThrow_serve_endless:
  assumes "\<forall>j. cursor (result (pages j)) \<noteq> None"
  shows "accumulateCatalogOrThrow (serve pages) token types s = None"
proof (rule ccontr)
  assume "accumulateCatalogOrThrow (serve pages) token types s \<noteq> None"
  then obtain y where "accumulateCatalogOrThrow (serve pages) token types s = Some y" by auto
  then have "\<exists>c tys acc s1. accumulate_while (serve pages) c tys
       (cursor (result (pages (length (requests s))))) acc s1 = Some y"
    unfolding accumulateCatalogOrThrow_def client_def
    by (simp only: prod.case Let_def pRetryOrThrow_listCatalog_serve sum.case) blast
  then obtain c tys acc s1 where "accumulate_while (serve pages) c tys
       (cursor (result (pages (length (requests s))))) acc s1 = Some y" by blast
  from accumulate_while_serve_endless[OF assms this] assms show False by simp
qed

lemma two_pages_simps:
  "cursor (result (two_pages 0)) = Some ''c1''"
  "cursor (result (two_pages (Suc 0))) = None"
  "objects_or_empty (two_pages 0) = [''a'', ''b'']"
  "objects_or_empty (two_pages (Suc 0)) = [''c'']"
  by (simp_all add: two_pages_def objects_or_empty_def)

section \<open>Claims about the service operations\<close>

text \<open>
  Claim C3. On a vendor that serves a sequence of pages, \<open>accumulateCatalogOrThrow\<close>
  returns exactly when some page carries an undefined cursor; it then returns after
  consuming the first such page, page \<open>k\<close>: every page before it carried a cursor and
  was followed by a further request, \<open>Suc k\<close> requests in all.
\<close>

theorem accumulateCatalogOrThrow_terminates_at_undefined_cursor:
  assumes "requests s = []"
  shows "((\<exists>y. accumulateCatalogOrThrow (serve pages) token types s = Some y)
            \<longleftrightarrow> (\<exists>k. cursor (result (pages k)) = None))
       \<and> (\<forall>k. cursor (result (pages k)) = None \<and> (\<forall>j<k. cursor (result (pages j)) \<noteq> None) \<longrightarrow>
            (\<exists>os s'. accumulateCatalogOrThrow (serve pages) token types s = Some (Inr os, s')
                     \<and> length (requests s') = Suc k))"
proof (intro conjI iffI allI impI)
  assume run: "\<exists>y. accumulateCatalogOrThrow (serve pages) token types s = Some y"
  show "\<exists>k. cursor (result (pages k)) = None"
  proof (rule ccontr)
    assume "\<not> (\<exists>k. cursor (result (pages k)) = None)"
    then have "\<forall>j. cursor (result (pages j)) \<noteq> None" by simp
    from accumulateCatalogOrThrow_serve_endless[OF this, of token types s] run
    show False by simp
  qed
next
  assume "\<exists>k. cursor (result (pages k)) = None"
  then obtain k0 where k0: "cursor (result (pages k0)) = None" by blast
  define k where "k = (LEAST k. cursor (result (pages k)) = None)"
  have k: "cursor (result (pages k)) = None" "\<forall>j<k. cursor (result (pages j)) \<noteq> None"
    unfolding k_def using k0 by (rule LeastI) (auto dest: not_less_Least)
  from accumulateCatalogOrThrow_serve[OF assms k]
  show "\<exists>y. accumulateCatalogOrThrow (serve pages) token types s = Some y" by blast
next
  fix k
  assume "cursor (result (pages k)) = None \<and> (\<forall>j<k. cursor (result (pages j)) \<noteq> None)"
  then have k: "cursor (result (pages k)) = None" "\<forall>j<k. cursor (result (pages j)) \<noteq> None"
    by simp_all
  from accumulateCatalogOrThrow_serve[OF assms k, of token types]
  show "\<exists>os s'. accumulateCatalogOrThrow (serve pages) token types s = Some (Inr os, s')
                     \<and> length (requests s') = Suc k"
    by simp
qed

text \<open>
  Claim C3, at the catalog of two pages: the second page has no cursor, the operation
  returns after two requests.
\<close>

theorem accumulateCatalogOrThrow_terminates_at_undefined_cursor_witness:
  "requests s0 = []
   \<and> cursor (result (two_pages 0)) = Some ''c1''
   \<and> cursor (result (two_pages 1)) = None
   \<and> (\<exists>y. accumulateCatalogOrThrow (serve two_pages) ''tok'' [''ITEM''] s0 = Some y)
   \<and> (\<exists>os s'. accumulateCatalogOrThrow (serve two_pages) ''tok'' [''ITEM''] s0 = Some (Inr os, s')
              \<and> length (requests s') = Suc 1)"
proof -
  have a: "requests s0 = []" by (simp add: s0_def)
  have b: "cursor (result (two_pages 1)) = None \<and> (\<forall>j<1. cursor (result (two_pages j)) \<noteq> None)"
    by (simp add: two_pages_simps)
  from accumulateCatalogOrThrow_terminates_at_undefined_cursor[OF a, of two_pages "''tok''" "[''ITEM'']"] b
  have "(\<exists>y. accumulateCatalogOrThrow (serve two_pages) ''tok'' [''ITEM''] s0 = Some y)
      \<and> (\<exists>os s'. accumulateCatalogOrThrow (serve two_pages) ''tok'' [''ITEM''] s0 = Some (Inr os, s')
              \<and> length (requests s') = Suc 1)"
    by blast
  with a show ?thesis by (simp add: two_pages_simps)
qed

text \<open>
  Claim C4. For every access token, list of types and sequence of pages whose page \<open>k\<close>
  is the first without a cursor, \<open>accumulateCatalogOrThrow\<close> returns the concatenation,
  in page order, of the \<open>objects\<close> of the pages 0 to \<open>k\<close> (a page without
  \<open>objects\<close> adds nothing); the first request carries no cursor, each later one the
  cursor of the page before it, and every request carries the types joined by commas.
\<close>

theorem accumulateCatalogOrThrow_concatenates_pages:
  assumes "requests s = []"
    and "cursor (result (pages k)) = None" and "\<forall>j<k. cursor (result (pages j)) \<noteq> None"
  shows "accumulateCatalogOrThrow (serve pages) token types s =
       Some (Inr (concat (map (\<lambda>j. objects_or_empty (pages j)) [0..<Suc k])),
             s\<lparr>requests :=
                 ListCatalog \<lparr>accessToken = Some token, environment = clientEnvironment (config s)\<rparr>
                   None (join types '','')
                 # map (\<lambda>j. ListCatalog
                          \<lparr>accessToken = Some token, environment = clientEnvironment (config s)\<rparr>
                          (cursor (result (pages j))) (join types '','')) [0..<k]\<rparr>)"
  using assms by (rule accumulateCatalogOrThrow_serve)

text \<open>
  Claim C4, at the catalog of two pages and the types \<^verbatim>\<open>ITEM\<close> and \<^verbatim>\<open>IMAGE\<close>.
\<close>

theorem accumulateCatalogOrThrow_concatenates_pages_witness:
  "requests s0 = []
   \<and> cursor (result (two_pages 0)) = Some ''c1''
   \<and> cursor (result (two_pages 1)) = None
   \<and> accumulateCatalogOrThrow (serve two_pages) ''tok'' [''ITEM'', ''IMAGE''] s0 =
       Some (Inr [''a'', ''b'', ''c''],
             s0\<lparr>requests :=
                 [ListCatalog \<lparr>accessToken = Some ''tok'', environment = ''sandbox''\<rparr> None ''ITEM,IMAGE'',
                  ListCatalog \<lparr>accessToken = Some ''tok'', environment = ''sandbox''\<rparr> (Some ''c1'')
                    ''ITEM,IMAGE'']\<rparr>)"
proof -
  have a: "requests s0 = []" by (simp add: s0_def)
  have b: "cursor (result (two_pages 1)) = None" by (simp add: two_pages_simps)
  have c: "\<forall>j<1. cursor (result (two_pages j)) \<noteq> None" by (simp add: two_pages_simps)
  from accumulateCatalogOrThrow_concatenates_pages[OF a b c, of "''tok''" "[''ITEM'', ''IMAGE'']"] a
  show ?thesis by (simp add: two_pages_simps s0_def cfg0_def)
qed

text \<open>
  Claim C7. \<open>retryObtainTokenOrThrow\<close> sends the vendor's \<^verbatim>\<open>obtainToken\<close> request
  with grant type \<^verbatim>\<open>authorization_code\<close> and the caller's code,
  \<open>retryRefreshTokenOrThrow\<close> the same request with grant type \<^verbatim>\<open>refresh_token\<close> and
  the caller's refresh token, both with the configured client id and client secret. Each
  operation sends nothing else: its requests are that one request, repeated by the retry
  wrapper between 1 and 11 times, and it settles with the vendor's answer to the last of
  them, the response envelope as it is or the error as the wrapper rethrows it.
\<close>

theorem retry_token_operations_forward:
  "(\<exists>n. 1 \<le> n \<and> n \<le> 11 \<and>
      retryObtainTokenOrThrow reply authCode s =
        (map_sum rethrown (\<lambda>v. v) (reply (requests s @ replicate n
           (ObtainToken \<lparr>accessToken = None, environment = clientEnvironment (config s)\<rparr>
              \<lparr>clientId = oauthClientId (config s), clientSecret = oauthClientSecret (config s),
               grantType = ''authorization_code'', code = Some authCode, refreshToken = None\<rparr>))),
         s\<lparr>requests := requests s @ replicate n
           (ObtainToken \<lparr>accessToken = None, environment = clientEnvironment (config s)\<rparr>
              \<lparr>clientId = oauthClientId (config s), clientSecret = oauthClientSecret (config s),
               grantType = ''authorization_code'', code = Some authCode, refreshToken = None\<rparr>)\<rparr>))
   \<and> (\<exists>n. 1 \<le> n \<and> n \<le> 11 \<and>
      retryRefreshTokenOrThrow reply' refresh s =
        (map_sum rethrown (\<lambda>v. v) (reply' (requests s @ replicate n
           (ObtainToken \<lparr>accessToken = None, environment = clientEnvironment (config s)\<rparr>
              \<lparr>clientId = oauthClientId (config s), clientSecret = oauthClientSecret (config s),
               grantType = ''refresh_token'', code = None, refreshToken = Some refresh\<rparr>))),
         s\<lparr>requests := requests s @ replicate n
           (ObtainToken \<lparr>accessToken = None, environment = clientEnvironment (config s)\<rparr>
              \<lparr>clientId = oauthClientId (config s), clientSecret = oauthClientSecret (config s),
               grantType = ''refresh_token'', code = None, refreshToken = Some refresh\<rparr>)\<rparr>))"
proof
  show "\<exists>n. 1 \<le> n \<and> n \<le> 11 \<and>
      retryObtainTokenOrThrow reply authCode s =
        (map_sum rethrown (\<lambda>v. v) (reply (requests s @ replicate n
           (ObtainToken \<lparr>accessToken = None, environment = clientEnvironment (config s)\<rparr>
              \<lparr>clientId = oauthClientId (config s), clientSecret = oauthClientSecret (config s),
               grantType = ''authorization_code'', code = Some authCode, refreshToken = None\<rparr>))),
         s\<lparr>requests := requests s @ replicate n
           (ObtainToken \<lparr>accessToken = None, environment = clientEnvironment (config s)\<rparr>
              \<lparr>clientId = oauthClientId (config s), clientSecret = oauthClientSecret (config s),
               grantType = ''authorization_code'', code = Some authCode, refreshToken = None\<rparr>)\<rparr>)"
    unfolding retryObtainTokenOrThrow_def
    by (rule pRetryOrThrow_send[where mk = "\<lambda>cfg. ObtainToken \<lparr>accessToken = None, environment = clientEnvironment cfg\<rparr>
              \<lparr>clientId = oauthClientId cfg, clientSecret = oauthClientSecret cfg,
               grantType = ''authorization_code'', code = Some authCode, refreshToken = None\<rparr>"])
      (simp add: client_def obtainToken_def)
  show "\<exists>n. 1 \<le> n \<and> n \<le> 11 \<and>
      retryRefreshTokenOrThrow reply' refresh s =
        (map_sum rethrown (\<lambda>v. v) (reply' (requests s @ replicate n
           (ObtainToken \<lparr>accessToken = None, environment = clientEnvironment (config s)\<rparr>
              \<lparr>clientId = oauthClientId (config s), clientSecret = oauthClientSecret (config s),
               grantType = ''refresh_token'', code = None, refreshToken = Some refresh\<rparr>))),
         s\<lparr>requests := requests s @ replicate n
           (ObtainToken \<lparr>accessToken = None, environment = clientEnvironment (config s)\<rparr>
              \<lparr>clientId = oauthClientId (config s), clientSecret = oauthClientSecret (config s),
               grantType = ''refresh_token'', code = None, refreshToken = Some refresh\<rparr>)\<rparr>)"
    unfolding retryRefreshTokenOrThrow_def
    by (rule pRetryOrThrow_send[where mk = "\<lambda>cfg. ObtainToken \<lparr>accessToken = None, environment = clientEnvironment cfg\<rparr>
              \<lparr>clientId = oauthClientId cfg, clientSecret = oauthClientSecret cfg,
               grantType = ''refresh_token'', code = None, refreshToken = Some refresh\<rparr>"])
      (simp add: client_def obtainToken_def)
qed

text \<open>
  Claim C7, at a token endpoint that fails once with status 503: two identical requests.
\<close>

theorem retry_token_operations_forward_witness:
  "retryObtainTokenOrThrow token_server ''code-1'' s0 =
     (Inr \<lparr>statusCode = 200, body = ''{}'', result = ''token-1''\<rparr>,
      s0\<lparr>requests := replicate 2
        (ObtainToken \<lparr>accessToken = None, environment = ''sandbox''\<rparr>
           \<lparr>clientId = ''sq0idp-1'', clientSecret = ''sq0csp-2'',
            grantType = ''authorization_code'', code = Some ''code-1'', refreshToken = None\<rparr>)\<rparr>)
   \<and> retryRefreshTokenOrThrow token_server ''refresh-1'' s0 =
     (Inr \<lparr>statusCode = 200, body = ''{}'', result = ''token-1''\<rparr>,
      s0\<lparr>requests := replicate 2
        (ObtainToken \<lparr>accessToken = None, environment = ''sandbox''\<rparr>
           \<lparr>clientId = ''sq0idp-1'', clientSecret = ''sq0csp-2'',
            grantType = ''refresh_token'', code = None, refreshToken = Some ''refresh-1''\<rparr>)\<rparr>)"
  using retry_token_operations_forward[of token_server "''code-1''" s0 token_server "''refresh-1''"]
  by (simp add: retryObtainTokenOrThrow_def retryRefreshTokenOrThrow_def run_simps sdk_simps
      token_server_def s0_def cfg0_def)

text \<open>
  Claim C10. \<open>uploadCatalogImageOrThrow\<close> sends \<^verbatim>\<open>createCatalogImage\<close> with an image
  object of type \<^verbatim>\<open>IMAGE\<close> whose id is the character \<^verbatim>\<open>#\<close> followed by the caller's
  id, with the caller's caption, idempotency key and object id, and the wrapper of the
  file's stream and content type. It sends nothing else: its requests are that one request,
  repeated by the retry wrapper between 1 and 11 times. It returns the \<open>result\<close> field of
  the vendor's answer to the last of them, not the envelope that the token operations
  return.
\<close>

theorem uploadCatalogImageOrThrow_request:
  "\<exists>n. 1 \<le> n \<and> n \<le> 11 \<and>
     uploadCatalogImageOrThrow reply params s =
       (map_sum rethrown result (reply (requests s @ replicate n
          (CreateCatalogImage
             \<lparr>accessToken = Some (up_accessToken params), environment = clientEnvironment (config s)\<rparr>
             \<lparr>idempotencyKey = up_idempotencyKey params, objectId = up_objectId params,
              imageObject = \<lparr>imageType = ''IMAGE'', imageId = CHR ''#'' # up_id params,
                             imageData = \<lparr>caption = up_caption params\<rparr>\<rparr>\<rparr>
             \<lparr>fileStream = buffer (up_file params), contentType = mimetype (up_file params)\<rparr>))),
        s\<lparr>requests := requests s @ replicate n
          (CreateCatalogImage
             \<lparr>accessToken = Some (up_accessToken params), environment = clientEnvironment (config s)\<rparr>
             \<lparr>idempotencyKey = up_idempotencyKey params, objectId = up_objectId params,
              imageObject = \<lparr>imageType = ''IMAGE'', imageId = CHR ''#'' # up_id params,
                             imageData = \<lparr>caption = up_caption params\<rparr>\<rparr>\<rparr>
             \<lparr>fileStream = buffer (up_file params), contentType = mimetype (up_file params)\<rparr>)\<rparr>)"
proof -
  let ?mk = "\<lambda>cfg. CreateCatalogImage
             \<lparr>accessToken = Some (up_accessToken params), environment = clientEnvironment cfg\<rparr>
             \<lparr>idempotencyKey = up_idempotencyKey params, objectId = up_objectId params,
              imageObject = \<lparr>imageType = ''IMAGE'', imageId = CHR ''#'' # up_id params,
                             imageData = \<lparr>caption = up_caption params\<rparr>\<rparr>\<rparr>
             \<lparr>fileStream = buffer (up_file params), contentType = mimetype (up_file params)\<rparr>"
  let ?fn = "\<lambda>s. case client (Some (up_accessToken params)) s of (c, s1) \<Rightarrow>
                createCatalogImage reply c
                  \<lparr>idempotencyKey = up_idempotencyKey params,
                   objectId = up_objectId params,
                   imageObject =
                     \<lparr>imageType = ''IMAGE'',
                      imageId = ''#'' @ up_id params,
                      imageData = \<lparr>caption = up_caption params\<rparr>\<rparr>\<rparr>
                  \<lparr>fileStream = bufferToStream (buffer (up_file params)),
                   contentType = mimetype (up_file params)\<rparr> s1"
  have fn: "\<And>s. ?fn s = in_world (send reply (?mk (config s))) s"
    by (simp add: client_def createCatalogImage_def bufferToStream_def)
  from pRetryOrThrow_send[of ?fn reply ?mk s, OF fn] obtain n where n: "1 \<le> n" "n \<le> 11"
    "pRetryOrThrow ?fn s =
       (map_sum rethrown (\<lambda>v. v) (reply (requests s @ replicate n (?mk (config s)))),
        s\<lparr>requests := requests s @ replicate n (?mk (config s))\<rparr>)"
    by blast
  have "uploadCatalogImageOrThrow reply params s =
       (map_sum rethrown result (reply (requests s @ replicate n (?mk (config s)))),
        s\<lparr>requests := requests s @ replicate n (?mk (config s))\<rparr>)"
    unfolding uploadCatalogImageOrThrow_def Let_def n(3)
    by (cases "reply (requests s @ replicate n (?mk (config s)))") simp_all
  with n(1,2) show ?thesis by blast
qed

text \<open>
  Claim C10, at an upload of a two-byte file with id \<^verbatim>\<open>img\<close>.
\<close>

theorem uploadCatalogImageOrThrow_request_witness:
  "uploadCatalogImageOrThrow image_server upload0 s0 =
     (Inr ''image-1'',
      s0\<lparr>requests :=
        [CreateCatalogImage
           \<lparr>accessToken = Some ''tok'', environment = ''sandbox''\<rparr>
           \<lparr>idempotencyKey = ''key-1'', objectId = Some ''obj-9'',
            imageObject = \<lparr>imageType = ''IMAGE'', imageId = ''#img'',
                           imageData = \<lparr>caption = Some ''front''\<rparr>\<rparr>\<rparr>
           \<lparr>fileStream = [0xFF, 0xD8], contentType = ''image/jpeg''\<rparr>]\<rparr>)"
  using uploadCatalogImageOrThrow_request[of image_server upload0 s0]
  by (simp add: uploadCatalogImageOrThrow_def run_simps sdk_simps bufferToStream_def
      image_server_def upload0_def s0_def cfg0_def)

text \<open>
  Claim C8. No public operation of the service changes the configuration: after
  \<open>client\<close>, \<open>retryOrThrow\<close>, \<open>retryObtainTokenOrThrow\<close>,
  \<open>retryRefreshTokenOrThrow\<close>, \<open>accumulateCatalogOrThrow\<close> (when it returns) and
  \<open>uploadCatalogImageOrThrow\<close>, the \<open>config\<close> of the state, hence each of its three
  fields, is what it was before.
\<close>

theorem config_never_mutated:
  "config (snd (client tok s)) = config s
   \<and> config (snd (retryOrThrow token clientFn s)) = config s
   \<and> config (snd (retryObtainTokenOrThrow reply1 authCode s)) = config s
   \<and> config (snd (retryRefreshTokenOrThrow reply2 refresh s)) = config s
   \<and> (\<forall>r s'. accumulateCatalogOrThrow reply3 token types s = Some (r, s') \<longrightarrow> config s' = config s)
   \<and> config (snd (uploadCatalogImageOrThrow reply4 params s)) = config s"
proof (intro conjI allI impI)
  show "config (snd (client tok s)) = config s" by (simp add: client_def)
  show "config (snd (retryOrThrow token clientFn s)) = config s"
    unfolding retryOrThrow_def
    by (rule pRetryOrThrow_config) (simp add: client_def in_world_config)
  show "config (snd (retryObtainTokenOrThrow reply1 authCode s)) = config s"
    unfolding retryObtainTokenOrThrow_def
    by (rule pRetryOrThrow_config) (simp add: client_def obtainToken_def in_world_config)
  show "config (snd (retryRefreshTokenOrThrow reply2 refresh s)) = config s"
    unfolding retryRefreshTokenOrThrow_def
    by (rule pRetryOrThrow_config) (simp add: client_def obtainToken_def in_world_config)
  show "config (snd (uploadCatalogImageOrThrow reply4 params s)) = config s"
  proof -
    let ?fn = "\<lambda>s. case client (Some (up_accessToken params)) s of (c, s1) \<Rightarrow>
                createCatalogImage reply4 c
                  \<lparr>idempotencyKey = up_idempotencyKey params,
                   objectId = up_objectId params,
                   imageObject =
                     \<lparr>imageType = ''IMAGE'',
                      imageId = ''#'' @ up_id params,
                      imageData = \<lparr>caption = up_caption params\<rparr>\<rparr>\<rparr>
                  \<lparr>fileStream = bufferToStream (buffer (up_file params)),
                   contentType = mimetype (up_file params)\<rparr> s1"
    have "config (snd (pRetryOrThrow ?fn s)) = config s"
      by (rule pRetryOrThrow_config) (simp add: client_def createCatalogImage_def in_world_config)
    then show ?thesis
      unfolding uploadCatalogImageOrThrow_def Let_def
      by (auto split: prod.splits sum.splits)
  qed
next
  fix r s'
  assume run: "accumulateCatalogOrThrow reply3 token types s = Some (r, s')"
  let ?c = "\<lparr>accessToken = Some token, environment = clientEnvironment (config s)\<rparr>"
  obtain o1 s1 where p: "pRetryOrThrow (listCatalog reply3 ?c None (join types '','')) s = (o1, s1)"
    by (cases "pRetryOrThrow (listCatalog reply3 ?c None (join types '','')) s")
  have c1: "config s1 = config s"
    using pRetryOrThrow_config[where fn = "listCatalog reply3 ?c None (join types '','')" and s = s] p
    by (simp add: listCatalog_config)
  show "config s' = config s"
  proof (cases o1)
    case (Inl e)
    with run p c1 show ?thesis by (simp add: accumulateCatalogOrThrow_def client_def)
  next
    case (Inr resp)
    with run p have "accumulate_while reply3 ?c (join types '','') (cursor (result resp))
        ([] @ objects_or_empty resp) s1 = Some (r, s')"
      by (simp add: accumulateCatalogOrThrow_def client_def)
    from accumulate_while_config[OF this] c1 show ?thesis by simp
  qed
qed

text \<open>
  Claim C8, at one run of each operation from the state \<open>s0\<close>.
\<close>

theorem config_never_mutated_witness:
  "config (snd (client (Some ''tok'') s0)) = cfg0
   \<and> config (snd (retryOrThrow ''tok'' reading s0)) = cfg0
   \<and> config (snd (retryObtainTokenOrThrow token_server ''code-1'' s0)) = cfg0
   \<and> config (snd (retryRefreshTokenOrThrow token_server ''refresh-1'' s0)) = cfg0
   \<and> accumulateCatalogOrThrow (serve two_pages) ''tok'' [''ITEM''] s0 =
       Some (Inr [''a'', ''b'', ''c''],
             s0\<lparr>requests :=
                 [ListCatalog \<lparr>accessToken = Some ''tok'', environment = ''sandbox''\<rparr> None ''ITEM'',
                  ListCatalog \<lparr>accessToken = Some ''tok'', environment = ''sandbox''\<rparr> (Some ''c1'')
                    ''ITEM'']\<rparr>)
   \<and> config (s0\<lparr>requests :=
                 [ListCatalog \<lparr>accessToken = Some ''tok'', environment = ''sandbox''\<rparr> None ''ITEM'',
                  ListCatalog \<lparr>accessToken = Some ''tok'', environment = ''sandbox''\<rparr> (Some ''c1'')
                    ''ITEM'']\<rparr>) = cfg0
   \<and> config (snd (uploadCatalogImageOrThrow image_server upload0 s0)) = cfg0"
proof -
  have a: "requests s0 = []" by (simp add: s0_def)
  have b: "cursor (result (two_pages 1)) = None" by (simp add: two_pages_simps)
  have c: "\<forall>j<1. cursor (result (two_pages j)) \<noteq> None" by (simp add: two_pages_simps)
  have run: "accumulateCatalogOrThrow (serve two_pages) ''tok'' [''ITEM''] s0 =
       Some (Inr [''a'', ''b'', ''c''],
             s0\<lparr>requests :=
                 [ListCatalog \<lparr>accessToken = Some ''tok'', environment = ''sandbox''\<rparr> None ''ITEM'',
                  ListCatalog \<lparr>accessToken = Some ''tok'', environment = ''sandbox''\<rparr> (Some ''c1'')
                    ''ITEM'']\<rparr>)"
    using accumulateCatalogOrThrow_serve[OF a b c, of "''tok''" "[''ITEM'']"]
    by (simp add: two_pages_simps s0_def cfg0_def)
  have cfg: "config s0 = cfg0" by (simp add: s0_def)
  from config_never_mutated[of "Some ''tok''" s0 "''tok''" reading token_server "''code-1''"
      token_server "''refresh-1''" "serve two_pages" "[''ITEM'']" image_server upload0] run cfg
  show ?thesis by simp
qed

end
